theory Spec2Isabelle
  imports Main "HOL-Library.Sublist"
begin

section \<open>JavaScript values, strings and arrays\<close>

text \<open>
  The values that travel through the query builder (\<open>any\<close> in the source) are the JSON
  scalars; the numbers among them are the whole numbers. Strings are
  lists of characters; the model reads a character as an ASCII code unit.
\<close>

datatype jsvalue = Undefined | Null | Bool bool | Num int | Str string

text \<open>
  An object is the list of its own properties in the order \<open>Object.keys\<close> enumerates
  them; \<open>row[col]\<close> of an absent property is \<open>undefined\<close>.
\<close>

type_synonym row = "(string \<times> jsvalue) list"

definition keys :: "row \<Rightarrow> string list" where
  "keys r = map fst r"

definition get :: "row \<Rightarrow> string \<Rightarrow> jsvalue" where
  "get r k = (case map_of r k of None \<Rightarrow> Undefined | Some v \<Rightarrow> v)"

text \<open>
  A JavaScript array may have holes: \<open>[1, , 3]\<close> has length 3 and no element at
  index 1. An array that a caller passes in is a list of optional elements, \<open>None\<close>
  for a hole. Spreading an array (\<open>...xs\<close>) reads a hole as \<open>undefined\<close>;
  \<open>Array.prototype.map\<close> does not call the function on a hole and leaves the hole;
  \<open>Array.prototype.join\<close> writes nothing for a hole.
\<close>

type_synonym 'a array = "'a option list"

definition spread :: "jsvalue array \<Rightarrow> jsvalue list" where
  "spread xs = map (\<lambda>x. case x of None \<Rightarrow> Undefined | Some v \<Rightarrow> v) xs"

definition array_map :: "('a \<Rightarrow> 'b) \<Rightarrow> 'a array \<Rightarrow> 'b array" where
  "array_map f xs = map (map_option f) xs"

text \<open>Truthiness, as \<open>?:\<close> and \<open>||\<close> test it.\<close>

fun truthy :: "jsvalue \<Rightarrow> bool" where
  "truthy Undefined = False"
| "truthy Null = False"
| "truthy (Bool b) = b"
| "truthy (Num n) = (n \<noteq> 0)"
| "truthy (Str s) = (s \<noteq> [])"

text \<open>\<open>String.prototype.includes\<close>: the argument occurs as a contiguous substring.\<close>

fun str_includes :: "string \<Rightarrow> string \<Rightarrow> bool" where
  "str_includes [] t = (t = [])"
| "str_includes (c # cs) t = (prefix t (c # cs) \<or> str_includes cs t)"

text \<open>\<open>Array.prototype.join\<close>.\<close>

fun join :: "string list \<Rightarrow> string \<Rightarrow> string" where
  "join [] sep = []"
| "join [x] sep = x"
| "join (x # y # ys) sep = x @ sep @ join (y # ys) sep"

definition array_join :: "string array \<Rightarrow> string \<Rightarrow> string" where
  "array_join xs sep = join (map (\<lambda>x. case x of None \<Rightarrow> [] | Some s \<Rightarrow> s) xs) sep"

text \<open>
  A template literal \<open>${v}\<close> converts the value to a string. How the language prints
  a number is not part of this code: the conversion of numbers is a parameter
  \<open>num\<close> of the model.
\<close>

fun toString :: "(int \<Rightarrow> string) \<Rightarrow> jsvalue \<Rightarrow> string" where
  "toString num Undefined = ''undefined''"
| "toString num Null = ''null''"
| "toString num (Bool b) = (if b then ''true'' else ''false'')"
| "toString num (Num n) = num n"
| "toString num (Str s) = s"

text \<open>
  Two measures on SQL text, used to state the properties: the number of \<open>?\<close>
  placeholders, and the number of positions at which a token starts.
\<close>

definition placeholders :: "string \<Rightarrow> nat" where
  "placeholders s = count_list s (CHR ''?'')"

fun occurrences :: "string \<Rightarrow> string \<Rightarrow> nat" where
  "occurrences [] t = (if t = [] then 1 else 0)"
| "occurrences (c # cs) t = (if prefix t (c # cs) then 1 else 0) + occurrences cs t"


section \<open>Condition builders\<close>

datatype WhereCondition = WhereCondition (sql: string) (params: "jsvalue array")

definition eq :: "string \<Rightarrow> jsvalue \<Rightarrow> WhereCondition" where
  \<open>eq column v = WhereCondition (''"'' @ column @ ''" = ?'') [Some v]\<close>




definition lt :: "string \<Rightarrow> jsvalue \<Rightarrow> WhereCondition" where
  \<open>lt column v = WhereCondition (''"'' @ column @ ''" < ?'') [Some v]\<close>



definition inArray :: "string \<Rightarrow> jsvalue array \<Rightarrow> WhereCondition" where
  \<open>inArray column vs =
     (let placeholders = array_join (array_map (\<lambda>_. ''?'') vs) '', ''
      in WhereCondition (''"'' @ column @ ''" IN ('' @ placeholders @ '')'') vs)\<close>


section \<open>Statement builders\<close>

text \<open>
  \<open>QueryBuilder\<close> holds the accumulated text and the bound parameters. Every clause
  method mutates \<open>this\<close> and returns it; the model takes the builder and returns the
  updated one. The database handle \<open>db\<close> is only used to execute, and is passed to
  the executing methods.
\<close>

record QueryBuilder =
  query :: string
  params :: "jsvalue list"

record UpdateQueryBuilder = QueryBuilder +
  table :: string

record InsertQueryBuilder = QueryBuilder +
  table :: string

subsection \<open>SELECT\<close>

definition db_select :: "string list \<Rightarrow> QueryBuilder" where
  "db_select columns =
     (let cols = (if length columns = 0 then ''*'' else join columns '', '')
      in \<lparr>query = ''SELECT '' @ cols, params = []\<rparr>)"

definition select_from :: "string \<Rightarrow> QueryBuilder \<Rightarrow> QueryBuilder" where
  \<open>select_from tbl b = b\<lparr>query := query b @ '' FROM "'' @ tbl @ ''"''\<rparr>\<close>

definition select_where :: "WhereCondition \<Rightarrow> QueryBuilder \<Rightarrow> QueryBuilder" where
  "select_where condition b =
     (let b' = (if str_includes (query b) ''WHERE''
                then b\<lparr>query := query b @ '' AND '' @ sql condition\<rparr>
                else b\<lparr>query := query b @ '' WHERE '' @ sql condition\<rparr>)
      in b'\<lparr>params := params b' @ spread (WhereCondition.params condition)\<rparr>)"

definition select_orWhere :: "WhereCondition \<Rightarrow> QueryBuilder \<Rightarrow> QueryBuilder" where
  "select_orWhere condition b =
     (let b' = (if str_includes (query b) ''WHERE''
                then b\<lparr>query := query b @ '' OR '' @ sql condition\<rparr>
                else b\<lparr>query := query b @ '' WHERE '' @ sql condition\<rparr>)
      in b'\<lparr>params := params b' @ spread (WhereCondition.params condition)\<rparr>)"

datatype direction = ASC | DESC

fun direction_text :: "direction \<Rightarrow> string" where
  "direction_text ASC = ''ASC''"
| "direction_text DESC = ''DESC''"










subsection \<open>Executing a SELECT\<close>

text \<open>
  \<open>db.sql(query, ...params)\<close> posts the statement and answers the rows of the
  result; it throws an \<open>Error\<close> with the remote message when the response is not ok.
  The transport is a parameter of the model. Reading a property of \<open>undefined\<close>
  throws a \<open>TypeError\<close>.
\<close>

datatype error = Error string | TypeError

type_synonym executor = "string \<Rightarrow> jsvalue list \<Rightarrow> error + row list"

text \<open>
  \<open>results[0] || null\<close>: \<open>results[0]\<close> is \<open>undefined\<close> on an empty array, which
  is falsy, so the value is \<open>null\<close> (here \<open>None\<close>); a row is an object, which is
  truthy, so the value is the row.
\<close>

definition select_first :: "executor \<Rightarrow> QueryBuilder \<Rightarrow> error + row option" where
  "select_first db b =
     (case db (query b) (params b) of
        Inl e \<Rightarrow> Inl e
      | Inr results \<Rightarrow> Inr (case results of [] \<Rightarrow> None | r # _ \<Rightarrow> Some r))"

text \<open>
  \<open>query.replace(/SELECT .* FROM/, 'SELECT COUNT(*) as count FROM')\<close> replaces the
  leftmost match and leaves a text without a match as it is. The dot matches every
  character but a line terminator, and the star is greedy: the match ends at the
  last \<open> FROM\<close> that the dots can reach.
\<close>

definition line_terminator :: "char \<Rightarrow> bool" where
  "line_terminator c = (c = CHR 0x0A \<or> c = CHR 0x0D)"

text \<open>
  \<open>dot_star_FROM s\<close> matches \<open>.* FROM\<close> at the start of \<open>s\<close> and answers the
  text after the match: the star first tries to take one more character, and gives
  it back when the rest does not match.
\<close>

fun dot_star_FROM :: "string \<Rightarrow> string option" where
  "dot_star_FROM [] = None"
| "dot_star_FROM (c # cs) =
     (case (if line_terminator c then None else dot_star_FROM cs) of
        Some rest \<Rightarrow> Some rest
      | None \<Rightarrow> if prefix '' FROM'' (c # cs) then Some (drop 5 (c # cs)) else None)"

fun replace_SELECT_FROM :: "string \<Rightarrow> string" where
  "replace_SELECT_FROM [] = []"
| "replace_SELECT_FROM (c # cs) =
     (if prefix ''SELECT '' (c # cs)
      then (case dot_star_FROM (drop 7 (c # cs)) of
              Some rest \<Rightarrow> ''SELECT COUNT(*) as count FROM'' @ rest
            | None \<Rightarrow> c # replace_SELECT_FROM cs)
      else c # replace_SELECT_FROM cs)"

definition select_count :: "executor \<Rightarrow> QueryBuilder \<Rightarrow> error + jsvalue" where
  "select_count db b =
     (let countQuery = replace_SELECT_FROM (query b)
      in case db countQuery (params b) of
           Inl e \<Rightarrow> Inl e
         | Inr result \<Rightarrow>
             (case result of [] \<Rightarrow> Inl TypeError | r # _ \<Rightarrow> Inr (get r ''count'')))"

subsection \<open>INSERT\<close>

definition db_insert :: "string \<Rightarrow> InsertQueryBuilder" where
  "db_insert tbl = \<lparr>query = [], params = [], InsertQueryBuilder.table = tbl\<rparr>"

text \<open>
  \<open>values\<close> takes one row or an array of rows. \<open>Object.keys(rows[0])\<close> of an empty
  array throws a \<open>TypeError\<close>, before the builder is touched.
\<close>

datatype insert_data = OneRow row | Rows "row list"

text \<open>\<open>Array.isArray(data) ? data : [data]\<close>.\<close>

fun data_rows :: "insert_data \<Rightarrow> row list" where
  "data_rows (Rows rs) = rs"
| "data_rows (OneRow r) = [r]"

definition insert_values :: "insert_data \<Rightarrow> InsertQueryBuilder \<Rightarrow> error + InsertQueryBuilder" where
  \<open>insert_values data b =
     (let rows = data_rows data
      in case rows of
           [] \<Rightarrow> Inl TypeError
         | r0 # _ \<Rightarrow>
             (let columns = keys r0;
                  columnNames = join (map (\<lambda>col. ''"'' @ col @ ''"'') columns) '', '';
                  valuePlaceholders =
                    join (map (\<lambda>_. ''('' @ join (map (\<lambda>_. ''?'') columns) '', '' @ '')'') rows) '', '';
                  b' = b\<lparr>query := ''INSERT INTO "'' @ InsertQueryBuilder.table b @ ''" ('' @ columnNames
                                    @ '') VALUES '' @ valuePlaceholders\<rparr>
              in Inr (b'\<lparr>params := params b' @ concat (map (\<lambda>r. map (\<lambda>col. get r col) columns) rows)\<rparr>)))\<close>

subsection \<open>UPDATE\<close>

definition db_update :: "string \<Rightarrow> UpdateQueryBuilder" where
  \<open>db_update tbl = \<lparr>query = ''UPDATE "'' @ tbl @ ''"'', params = [], UpdateQueryBuilder.table = tbl\<rparr>\<close>

definition update_set :: "row \<Rightarrow> UpdateQueryBuilder \<Rightarrow> UpdateQueryBuilder" where
  \<open>update_set data b =
     (let columns = keys data;
          setClause = join (map (\<lambda>col. ''"'' @ col @ ''" = ?'') columns) '', '';
          b' = b\<lparr>query := query b @ '' SET '' @ setClause\<rparr>
      in b'\<lparr>params := params b' @ map (\<lambda>col. get data col) columns\<rparr>)\<close>

definition update_where :: "WhereCondition \<Rightarrow> UpdateQueryBuilder \<Rightarrow> UpdateQueryBuilder" where
  "update_where condition b =
     (let b' = (if str_includes (query b) ''WHERE''
                then b\<lparr>query := query b @ '' AND '' @ sql condition\<rparr>
                else b\<lparr>query := query b @ '' WHERE '' @ sql condition\<rparr>)
      in b'\<lparr>params := params b' @ spread (WhereCondition.params condition)\<rparr>)"

definition update_orWhere :: "WhereCondition \<Rightarrow> UpdateQueryBuilder \<Rightarrow> UpdateQueryBuilder" where
  "update_orWhere condition b =
     (let b' = (if str_includes (query b) ''WHERE''
                then b\<lparr>query := query b @ '' OR '' @ sql condition\<rparr>
                else b\<lparr>query := query b @ '' WHERE '' @ sql condition\<rparr>)
      in b'\<lparr>params := params b' @ spread (WhereCondition.params condition)\<rparr>)"




subsection \<open>DELETE\<close>

definition db_delete :: "QueryBuilder" where
  "db_delete = \<lparr>query = ''DELETE'', params = []\<rparr>"

definition delete_from :: "string \<Rightarrow> QueryBuilder \<Rightarrow> QueryBuilder" where
  \<open>delete_from tbl b = b\<lparr>query := query b @ '' FROM "'' @ tbl @ ''"''\<rparr>\<close>

definition delete_where :: "WhereCondition \<Rightarrow> QueryBuilder \<Rightarrow> QueryBuilder" where
  "delete_where condition b =
     (let b' = (if str_includes (query b) ''WHERE''
                then b\<lparr>query := query b @ '' AND '' @ sql condition\<rparr>
                else b\<lparr>query := query b @ '' WHERE '' @ sql condition\<rparr>)
      in b'\<lparr>params := params b' @ spread (WhereCondition.params condition)\<rparr>)"

definition delete_orWhere :: "WhereCondition \<Rightarrow> QueryBuilder \<Rightarrow> QueryBuilder" where
  "delete_orWhere condition b =
     (let b' = (if str_includes (query b) ''WHERE''
                then b\<lparr>query := query b @ '' OR '' @ sql condition\<rparr>
                else b\<lparr>query := query b @ '' WHERE '' @ sql condition\<rparr>)
      in b'\<lparr>params := params b' @ spread (WhereCondition.params condition)\<rparr>)"





section \<open>Schema normalizer\<close>

text \<open>\<open>String.prototype.toUpperCase\<close>, on ASCII text.\<close>

definition toUpperCase_char :: "char \<Rightarrow> char" where
  "toUpperCase_char c =
     (let n = (of_char c :: nat) in if 97 \<le> n \<and> n \<le> 122 then char_of (n - 32) else c)"

definition toUpperCase :: "string \<Rightarrow> string" where
  "toUpperCase s = map toUpperCase_char s"

definition mapSQLiteType :: "string \<Rightarrow> string" where
  "mapSQLiteType sqliteType =
     (let upper = toUpperCase sqliteType
      in if str_includes upper ''INT'' then ''number''
         else if upper = ''REAL'' then ''number''
         else if upper = ''TEXT'' then ''string''
         else ''string'')"

record ForeignKey =
  tableName :: jsvalue
  columnName :: jsvalue

text \<open>\<open>foreignKeys.find(fk => fk.from === columnName)\<close>; \<open>None\<close> is \<open>null\<close>.\<close>

definition findForeignKey :: "jsvalue \<Rightarrow> row list \<Rightarrow> ForeignKey option" where
  "findForeignKey column foreignKeys =
     (case find (\<lambda>fk. get fk ''from'' = column) foreignKeys of
        None \<Rightarrow> None
      | Some fk \<Rightarrow> Some \<lparr>tableName = get fk ''table'', columnName = get fk ''to''\<rparr>)"

record ColumnSchema =
  column_name :: jsvalue
  column_datatype :: string
  column_constraint :: string
  isRequired :: bool
  foreignKey :: "ForeignKey option"

record TableSchema =
  table_name :: jsvalue
  table_columns :: "ColumnSchema list"

text \<open>
  The function mapped over the rows of \<open>PRAGMA table_info\<close>. \<open>mapSQLiteType\<close> calls
  \<open>toUpperCase\<close> on \<open>col.type\<close>, which throws a \<open>TypeError\<close> when that is not a
  string.
\<close>

definition column_schema :: "row list \<Rightarrow> row \<Rightarrow> error + ColumnSchema" where
  "column_schema foreignKeys col =
     (case get col ''type'' of
        Str sqliteType \<Rightarrow>
          Inr \<lparr>column_name = get col ''name'',
               column_datatype = mapSQLiteType sqliteType,
               column_constraint =
                 (if truthy (get col ''pk'') then ''primary''
                  else if truthy (get col ''notnull'') then ''unique'' else ''none''),
               isRequired = (get col ''notnull'' = Num 1),
               foreignKey = findForeignKey (get col ''name'') foreignKeys\<rparr>
      | _ \<Rightarrow> Inl TypeError)"

text \<open>\<open>Array.prototype.map\<close> with a callback that may throw.\<close>

fun map_throwing :: "('a \<Rightarrow> error + 'b) \<Rightarrow> 'a list \<Rightarrow> error + 'b list" where
  "map_throwing f [] = Inr []"
| "map_throwing f (x # xs) =
     (case f x of
        Inl e \<Rightarrow> Inl e
      | Inr y \<Rightarrow> (case map_throwing f xs of Inl e \<Rightarrow> Inl e | Inr ys \<Rightarrow> Inr (y # ys)))"

definition tables_query :: string where
  "tables_query =
     [CHR 0x0A] @ ''      SELECT name FROM sqlite_master '' @
     [CHR 0x0A] @ ''      WHERE type='table' AND name NOT LIKE 'sqlite_%'' @ [CHR 0x27] @
     [CHR 0x0A] @ ''    ''"

text \<open>
  The loop over the tables of the catalog, in the order the catalog lists them. The
  schema object has the one property \<open>tables\<close>; the model answers its value.
\<close>

fun schema_tables :: "(int \<Rightarrow> string) \<Rightarrow> executor \<Rightarrow> row list \<Rightarrow> error + TableSchema list" where
  "schema_tables num db [] = Inr []"
| \<open>schema_tables num db (t # ts) =
     (let name = get t ''name'' in
      case db (''PRAGMA table_info("'' @ toString num name @ ''")'') [] of
        Inl e \<Rightarrow> Inl e
      | Inr columns \<Rightarrow>
         (case db (''PRAGMA foreign_key_list("'' @ toString num name @ ''")'') [] of
            Inl e \<Rightarrow> Inl e
          | Inr foreignKeys \<Rightarrow>
             (case map_throwing (column_schema foreignKeys) columns of
                Inl e \<Rightarrow> Inl e
              | Inr cols \<Rightarrow>
                 (case schema_tables num db ts of
                    Inl e \<Rightarrow> Inl e
                  | Inr rest \<Rightarrow> Inr (\<lparr>table_name = name, table_columns = cols\<rparr> # rest)))))\<close>

definition schema :: "(int \<Rightarrow> string) \<Rightarrow> executor \<Rightarrow> error + TableSchema list" where
  "schema num db =
     (case db tables_query [] of
        Inl e \<Rightarrow> Inl e
      | Inr tables \<Rightarrow> schema_tables num db tables)"


section \<open>Chains of calls and their arguments\<close>

text \<open>
  A \<open>where\<close> or \<open>orWhere\<close> call, as the three builders that have them receive it.
\<close>

datatype where_call = AndWhere WhereCondition | OrWhere WhereCondition

fun condition_of :: "where_call \<Rightarrow> WhereCondition" where
  "condition_of (AndWhere c) = c"
| "condition_of (OrWhere c) = c"

fun connective :: "where_call \<Rightarrow> string" where
  "connective (AndWhere c) = '' AND ''"
| "connective (OrWhere c) = '' OR ''"

fun select_where_call :: "QueryBuilder \<Rightarrow> where_call \<Rightarrow> QueryBuilder" where
  "select_where_call b (AndWhere c) = select_where c b"
| "select_where_call b (OrWhere c) = select_orWhere c b"

fun update_where_call :: "UpdateQueryBuilder \<Rightarrow> where_call \<Rightarrow> UpdateQueryBuilder" where
  "update_where_call b (AndWhere c) = update_where c b"
| "update_where_call b (OrWhere c) = update_orWhere c b"

fun delete_where_call :: "QueryBuilder \<Rightarrow> where_call \<Rightarrow> QueryBuilder" where
  "delete_where_call b (AndWhere c) = delete_where c b"
| "delete_where_call b (OrWhere c) = delete_orWhere c b"








section \<open>Stub executors\<close>

text \<open>An executor that answers the same rows to every statement, and one that fails.\<close>

definition canned :: "row list \<Rightarrow> executor" where
  "canned rows q ps = Inr rows"

definition failing :: "string \<Rightarrow> executor" where
  "failing message q ps = Inl (Error message)"

text \<open>A catalog with the one table \<open>Pixels\<close>, without foreign keys.\<close>

definition pixels_db :: executor where
  \<open>pixels_db q ps =
     (if q = tables_query then Inr [[(''name'', Str ''Pixels'')]]
      else if q = ''PRAGMA table_info("Pixels")'' then
        Inr [[(''cid'', Num 0), (''name'', Str ''id''), (''type'', Str ''INTEGER''),
              (''notnull'', Num 1), (''dflt_value'', Null), (''pk'', Num 1)],
             [(''cid'', Num 1), (''name'', Str ''x''), (''type'', Str ''integer''),
              (''notnull'', Num 0), (''dflt_value'', Null), (''pk'', Num 0)],
             [(''cid'', Num 2), (''name'', Str ''color''), (''type'', Str ''TEXT''),
              (''notnull'', Num 0), (''dflt_value'', Null), (''pk'', Num 0)]]
      else if q = ''PRAGMA foreign_key_list("Pixels")'' then Inr []
      else Inl (Error ''Query failed''))\<close>


section \<open>Counting placeholders\<close>

lemma placeholders_append [simp]: "placeholders (s @ t) = placeholders s + placeholders t"
  by (simp add: placeholders_def)

lemma placeholders_Nil [simp]: "placeholders [] = 0"
  by (simp add: placeholders_def)

lemma placeholders_Cons [simp]:
  "placeholders (c # s) = (if c = CHR ''?'' then Suc (placeholders s) else placeholders s)"
  by (simp add: placeholders_def)

lemma placeholders_join:
  "placeholders sep = 0 \<Longrightarrow> placeholders (join xs sep) = sum_list (map placeholders xs)"
  by (induction xs sep rule: join.induct) simp_all

lemma placeholders_direction [simp]: "placeholders (direction_text d) = 0"
  by (cases d) simp_all

lemma length_spread [simp]: "length (spread xs) = length xs"
  by (simp add: spread_def)


section \<open>The round trip of a two-condition SELECT\<close>

text \<open>
  Claim C4. The chain \<open>select('x','y').from('T').where(eq('x',3)).where(eq('y',4))\<close>
  produces exactly the text \<open>SELECT x, y FROM "T" WHERE "x" = ? AND "y" = ?\<close> and the
  bound parameters 3 and 4, in that order.
\<close>

theorem select_round_trip:
  \<open>select_where (eq ''y'' (Num 4))
     (select_where (eq ''x'' (Num 3)) (select_from ''T'' (db_select [''x'', ''y''])))
   = \<lparr>query = ''SELECT x, y FROM "T" WHERE "x" = ? AND "y" = ?'', params = [Num 3, Num 4]\<rparr>\<close>
  by (simp add: select_where_def select_from_def db_select_def eq_def spread_def)


section \<open>LIMIT and OFFSET\<close>



section \<open>The IN condition\<close>

text \<open>
  Claim C6, as the code has it. \<open>inArray(col, values)\<close> called with an empty
  sequence produces the fragment \<open>"col" IN ()\<close> with no bound value. There is no
  substitute fragment such as \<open>1=0\<close>.
\<close>

theorem inArray_fragment:
  \<open>inArray column [] = WhereCondition (''"'' @ column @ ''" IN ()'') []\<close>
  by (simp add: inArray_def array_join_def array_map_def)

text \<open>The claim as it was stated fails: the empty sequence gives \<open>"col" IN ()\<close>.\<close>

theorem inArray_empty_counterexample:
  \<open>sql (inArray ''col'' []) = ''"col" IN ()''\<close>
  by (simp add: inArray_def array_join_def array_map_def)

section \<open>Executing: the first row\<close>

text \<open>
  Claim C7. \<open>first()\<close> executes the statement with its bound parameters. It answers
  the first row when the executor answers a non-empty sequence, \<open>null\<close> when the
  sequence is empty, and fails only when the executor fails.
\<close>

theorem first_row_or_null:
  "(db (query b) (params b) = Inr (r # rs) \<longrightarrow> select_first db b = Inr (Some r))
   \<and> (db (query b) (params b) = Inr [] \<longrightarrow> select_first db b = Inr None)
   \<and> (db (query b) (params b) = Inl e \<longrightarrow> select_first db b = Inl e)"
  by (simp add: select_first_def)

theorem first_row_or_null_witness:
  "select_first (canned [[(''id'', Num 7)], [(''id'', Num 8)]]) (db_select []) = Inr (Some [(''id'', Num 7)])
   \<and> select_first (canned []) (db_select []) = Inr None
   \<and> select_first (failing ''Query failed'') (db_select []) = Inl (Error ''Query failed'')"
  using first_row_or_null [of "canned [[(''id'', Num 7)], [(''id'', Num 8)]]" "db_select []"
      "[(''id'', Num 7)]" "[[(''id'', Num 8)]]"]
    first_row_or_null [of "canned []" "db_select []"]
    first_row_or_null [of "failing ''Query failed''" "db_select []" _ _ "Error ''Query failed''"]
  by (simp add: canned_def failing_def)


section \<open>INSERT: rows, columns and bound values\<close>

lemma map_get_keys: "distinct (keys r) \<Longrightarrow> map (get r) (keys r) = map snd r"
proof (induction r)
  case Nil
  then show ?case by (simp add: keys_def)
next
  case (Cons kv r)
  obtain k v where kv: "kv = (k, v)" by (cases kv)
  from Cons.prems have k: "k \<notin> fst ` set r" and d: "distinct (keys r)"
    by (simp_all add: keys_def kv)
  have "map (get (kv # r)) (keys r) = map (get r) (keys r)"
  proof (rule map_cong [OF refl])
    fix x assume "x \<in> set (keys r)"
    with k have "x \<noteq> k" by (auto simp: keys_def)
    then show "get (kv # r) x = get r x" by (simp add: get_def kv)
  qed
  with Cons.IH [OF d] show ?case by (simp add: keys_def get_def kv)
qed

lemma row_major:
  assumes "\<forall>r\<in>set rows. keys r = ks" "distinct ks"
  shows "concat (map (\<lambda>r. map (get r) ks) rows) = concat (map (map snd) rows)"
proof -
  have "map (\<lambda>r. map (get r) ks) rows = map (map snd) rows"
  proof (rule map_cong [OF refl])
    fix r assume "r \<in> set rows"
    with assms have "keys r = ks" "distinct (keys r)" by auto
    then show "map (get r) ks = map snd r" using map_get_keys [of r] by simp
  qed
  then show ?thesis by (rule arg_cong)
qed

lemma values_of_rows:
  \<open>insert_values (Rows (r0 # rs)) b =
     Inr (b\<lparr>query := ''INSERT INTO "'' @ InsertQueryBuilder.table b @ ''" (''
                      @ join (map (\<lambda>col. ''"'' @ col @ ''"'') (keys r0)) '', '' @ '') VALUES ''
                      @ join (replicate (length (r0 # rs))
                               (''('' @ join (replicate (length (keys r0)) ''?'') '', '' @ '')'')) '', '',
            params := params b @ concat (map (\<lambda>r. map (get r) (keys r0)) (r0 # rs))\<rparr>)\<close>
  by (simp add: insert_values_def Let_def map_replicate_const)

lemma values_two_rows:
  \<open>insert_values (Rows [[(''a'', Num 1), (''b'', Num 2)], [(''a'', Num 3), (''b'', Num 4)]]) (db_insert ''T'')
   = Inr \<lparr>query = ''INSERT INTO "T" ("a", "b") VALUES (?, ?), (?, ?)'',
          params = [Num 1, Num 2, Num 3, Num 4], InsertQueryBuilder.table = ''T''\<rparr>\<close>
  by (simp add: insert_values_def db_insert_def keys_def get_def)

text \<open>
  Claim C5. \<open>insert('T').values([{a:1,b:2},{a:3,b:4}])\<close> produces the text
  \<open>INSERT INTO "T" ("a", "b") VALUES (?, ?), (?, ?)\<close> with the bound parameters
  1, 2, 3, 4. In general, for the rows \<open>r0, ...\<close>: the column list is the quoted keys
  of the first row, there is one parenthesized group of placeholders per row, and the
  bound values are the rows one after the other, each read at the columns of the
  first row; when every row has the keys of the first row, these are the values of
  row 1, then the values of row 2, and so on.
\<close>

theorem insert_values_rows:
  \<open>(\<exists>b. insert_values (Rows (r0 # rs)) (db_insert tbl) = Inr b
     \<and> query b = ''INSERT INTO "'' @ tbl @ ''" ('' @ join (map (\<lambda>col. ''"'' @ col @ ''"'') (keys r0)) '', ''
                 @ '') VALUES ''
                 @ join (replicate (length (r0 # rs))
                          (''('' @ join (replicate (length (keys r0)) ''?'') '', '' @ '')'')) '', ''
     \<and> params b = concat (map (\<lambda>r. map (get r) (keys r0)) (r0 # rs))
     \<and> ((\<forall>r\<in>set (r0 # rs). keys r = keys r0) \<and> distinct (keys r0)
          \<longrightarrow> params b = concat (map (map snd) (r0 # rs))))
   \<and> insert_values (Rows [[(''a'', Num 1), (''b'', Num 2)], [(''a'', Num 3), (''b'', Num 4)]])
         (db_insert ''T'')
       = Inr \<lparr>query = ''INSERT INTO "T" ("a", "b") VALUES (?, ?), (?, ?)'',
              params = [Num 1, Num 2, Num 3, Num 4], InsertQueryBuilder.table = ''T''\<rparr>\<close>
  using row_major [of "r0 # rs" "keys r0"] values_two_rows
  by (simp add: values_of_rows db_insert_def del: replicate.simps)

theorem insert_values_rows_witness:
  \<open>\<exists>b. insert_values (Rows [[(''a'', Num 1), (''b'', Num 2)], [(''a'', Num 3), (''b'', Num 4)]])
          (db_insert ''T'') = Inr b
      \<and> query b = ''INSERT INTO "T" ("a", "b") VALUES (?, ?), (?, ?)''
      \<and> params b = [Num 1, Num 2, Num 3, Num 4]\<close>
  using insert_values_rows [of "[(''a'', Num 1), (''b'', Num 2)]" "[[(''a'', Num 3), (''b'', Num 4)]]" "''T''"]
  by (simp add: keys_def get_def)

lemma insert_values_aligned:
  assumes "insert_values data (db_insert tbl) = Inr b"
    and "placeholders tbl = 0"
    and "\<forall>r\<in>set (data_rows data). \<forall>k\<in>set (keys r). placeholders k = 0"
  shows "placeholders (query b) = length (params b)"
proof -
  from assms(1) obtain r0 rs where rows: "data_rows data = r0 # rs"
    by (cases "data_rows data") (simp_all add: insert_values_def)
  with assms(3) have ks: "\<forall>k\<in>set (keys r0). placeholders k = 0" by simp
  have names: \<open>placeholders (join (map (\<lambda>col. ''"'' @ col @ ''"'') (keys r0)) '', '') = 0\<close>
    using ks by (simp add: placeholders_join comp_def)
  have group: "placeholders (''('' @ join (map (\<lambda>_. ''?'') (keys r0)) '', '' @ '')'') = length (keys r0)"
    by (simp add: placeholders_join comp_def sum_list_triv)
  have groups: "placeholders (join (map (\<lambda>_. ''('' @ join (map (\<lambda>_. ''?'') (keys r0)) '', '' @ '')'')
                    (r0 # rs)) '', '') = length (r0 # rs) * length (keys r0)"
    using group by (simp add: placeholders_join comp_def sum_list_triv del: placeholders_append)
  have len: "length (concat (map (\<lambda>r. map (get r) (keys r0)) (r0 # rs)))
               = length (r0 # rs) * length (keys r0)"
    by (simp add: length_concat comp_def sum_list_triv)
  from assms(1) have
    q: \<open>query b = ''INSERT INTO "'' @ tbl @ ''" (''
           @ join (map (\<lambda>col. ''"'' @ col @ ''"'') (keys r0)) '', '' @ '') VALUES ''
           @ join (map (\<lambda>_. ''('' @ join (map (\<lambda>_. ''?'') (keys r0)) '', '' @ '')'') (r0 # rs)) '', ''\<close>
    and p: "params b = concat (map (\<lambda>r. map (get r) (keys r0)) (r0 # rs))"
    by (auto simp: insert_values_def db_insert_def rows Let_def)
  show ?thesis
    unfolding q p len using names groups assms(2) by (simp del: join.simps)
qed

lemma values_of_data:
  assumes "data_rows d = r0 # rs"
  shows \<open>insert_values d b =
     Inr (b\<lparr>query := ''INSERT INTO "'' @ InsertQueryBuilder.table b @ ''" (''
                      @ join (map (\<lambda>col. ''"'' @ col @ ''"'') (keys r0)) '', '' @ '') VALUES ''
                      @ join (replicate (length (r0 # rs))
                               (''('' @ join (replicate (length (keys r0)) ''?'') '', '' @ '')'')) '', '',
            params := params b @ concat (map (\<lambda>r. map (get r) (keys r0)) (r0 # rs))\<rparr>)\<close>
  by (simp add: insert_values_def Let_def map_replicate_const assms)

text \<open>
  Claim C9. Two \<open>values()\<close> calls on a fresh builder, the first with the rows
  \<open>r1, ...\<close> and the second with the rows \<open>r2, ...\<close>, both succeed. After the
  second call the text is the INSERT statement of the second call alone, with the
  columns of \<open>r2\<close> and one group of placeholders per row of the second call; the
  text of the first call is gone. The bound parameters are the values of the first
  call followed by the values of the second. So the text holds placeholders for the
  second call only, while the parameters hold the values of both.
\<close>

theorem values_twice:
  assumes "data_rows d1 = r1 # rs1" and "data_rows d2 = r2 # rs2"
  shows \<open>\<exists>b1 b2. insert_values d1 (db_insert tbl) = Inr b1 \<and> insert_values d2 b1 = Inr b2
     \<and> query b1 = ''INSERT INTO "'' @ tbl @ ''" ('' @ join (map (\<lambda>col. ''"'' @ col @ ''"'') (keys r1)) '', ''
                  @ '') VALUES ''
                  @ join (replicate (length (r1 # rs1))
                           (''('' @ join (replicate (length (keys r1)) ''?'') '', '' @ '')'')) '', ''
     \<and> params b1 = concat (map (\<lambda>r. map (get r) (keys r1)) (r1 # rs1))
     \<and> query b2 = ''INSERT INTO "'' @ tbl @ ''" ('' @ join (map (\<lambda>col. ''"'' @ col @ ''"'') (keys r2)) '', ''
                  @ '') VALUES ''
                  @ join (replicate (length (r2 # rs2))
                           (''('' @ join (replicate (length (keys r2)) ''?'') '', '' @ '')'')) '', ''
     \<and> params b2 = concat (map (\<lambda>r. map (get r) (keys r1)) (r1 # rs1))
                   @ concat (map (\<lambda>r. map (get r) (keys r2)) (r2 # rs2))
     \<and> (placeholders tbl = 0 \<and> (\<forall>r\<in>set (data_rows d2). \<forall>k\<in>set (keys r). placeholders k = 0)
          \<longrightarrow> placeholders (query b2)
                = length (concat (map (\<lambda>r. map (get r) (keys r2)) (r2 # rs2))))\<close>
proof -
  let ?t1 = \<open>''INSERT INTO "'' @ tbl @ ''" ('' @ join (map (\<lambda>col. ''"'' @ col @ ''"'') (keys r1)) '', ''
                  @ '') VALUES ''
                  @ join (replicate (length (r1 # rs1))
                           (''('' @ join (replicate (length (keys r1)) ''?'') '', '' @ '')'')) '', ''\<close>
  let ?t2 = \<open>''INSERT INTO "'' @ tbl @ ''" ('' @ join (map (\<lambda>col. ''"'' @ col @ ''"'') (keys r2)) '', ''
                  @ '') VALUES ''
                  @ join (replicate (length (r2 # rs2))
                           (''('' @ join (replicate (length (keys r2)) ''?'') '', '' @ '')'')) '', ''\<close>
  let ?v1 = "concat (map (\<lambda>r. map (get r) (keys r1)) (r1 # rs1))"
  let ?v2 = "concat (map (\<lambda>r. map (get r) (keys r2)) (r2 # rs2))"
  let ?b1 = "\<lparr>query = ?t1, params = ?v1, InsertQueryBuilder.table = tbl\<rparr>"
  let ?b2 = "\<lparr>query = ?t2, params = ?v1 @ ?v2, InsertQueryBuilder.table = tbl\<rparr>"
  let ?s2 = "\<lparr>query = ?t2, params = ?v2, InsertQueryBuilder.table = tbl\<rparr>"
  have 1: "insert_values d1 (db_insert tbl) = Inr ?b1"
    by (simp add: values_of_data [OF assms(1)] db_insert_def del: replicate.simps)
  have 2: "insert_values d2 ?b1 = Inr ?b2"
    by (simp add: values_of_data [OF assms(2)] del: replicate.simps)
  have 3: "insert_values d2 (db_insert tbl) = Inr ?s2"
    by (simp add: values_of_data [OF assms(2)] db_insert_def del: replicate.simps)
  have 4: "placeholders ?t2 = length ?v2"
    if "placeholders tbl = 0" "\<forall>r\<in>set (data_rows d2). \<forall>k\<in>set (keys r). placeholders k = 0"
    using insert_values_aligned [OF 3 that] by simp
  show ?thesis
    by (rule exI [of _ ?b1], rule exI [of _ ?b2]) (use 1 2 4 in simp)
qed

theorem values_twice_witness:
  \<open>\<exists>b1 b2. insert_values (OneRow [(''a'', Num 1)]) (db_insert ''T'') = Inr b1
        \<and> insert_values (Rows [[(''b'', Num 2)], [(''b'', Num 3)]]) b1 = Inr b2
        \<and> query b1 = ''INSERT INTO "T" ("a") VALUES (?)''
        \<and> params b1 = [Num 1]
        \<and> query b2 = ''INSERT INTO "T" ("b") VALUES (?), (?)''
        \<and> params b2 = [Num 1, Num 2, Num 3]
        \<and> placeholders (query b2) = 2\<close>
proof -
  have d1: "data_rows (OneRow [(''a'', Num 1)]) = [(''a'', Num 1)] # []" by simp
  have d2: "data_rows (Rows [[(''b'', Num 2)], [(''b'', Num 3)]]) = [(''b'', Num 2)] # [[(''b'', Num 3)]]"
    by simp
  from values_twice [OF d1 d2, of "''T''"] show ?thesis
    by (simp add: keys_def get_def numeral_2_eq_2)
qed

section \<open>Placeholders and bound parameters\<close>















section \<open>Chains of where and orWhere\<close>

lemma str_includes_occurrences: "str_includes s t \<longleftrightarrow> 0 < occurrences s t"
  by (induction s) auto

lemma prefix_across:
  assumes "c \<notin> set pat"
  shows "prefix pat (s @ c # t) \<longleftrightarrow> prefix pat s"
proof
  assume "prefix pat (s @ c # t)"
  then consider "prefix pat s" | us where "pat = s @ us" "prefix us (c # t)"
    by (auto simp: prefix_append)
  then show "prefix pat s"
  proof cases
    case 1
    then show ?thesis .
  next
    case 2
    with assms have "us = []" by (cases us) auto
    with 2 show ?thesis by simp
  qed
next
  assume "prefix pat s"
  then show "prefix pat (s @ c # t)" by (rule prefix_prefix)
qed

lemma occurrences_append:
  assumes "c \<notin> set pat" and "pat \<noteq> []"
  shows "occurrences (s @ c # t) pat = occurrences s pat + occurrences (c # t) pat"
proof (induction s)
  case Nil
  with assms show ?case by simp
next
  case (Cons a s)
  have "prefix pat ((a # s) @ c # t) \<longleftrightarrow> prefix pat (a # s)"
    using assms(1) by (rule prefix_across)
  with Cons show ?case by simp
qed

lemma occurrences_WHERE_kw [simp]:
  "occurrences ('' WHERE '' @ s) ''WHERE'' = Suc (occurrences s ''WHERE'')"
  "occurrences ('' AND '' @ s) ''WHERE'' = occurrences s ''WHERE''"
  "occurrences ('' OR '' @ s) ''WHERE'' = occurrences s ''WHERE''"
  using occurrences_append [of "CHR '' ''" "''WHERE''" "'' WHERE''" s]
    occurrences_append [of "CHR '' ''" "''WHERE''" "'' AND''" s]
    occurrences_append [of "CHR '' ''" "''WHERE''" "'' OR''" s]
  by simp_all

lemma occurrences_after:
  "occurrences (q @ '' WHERE '' @ s) ''WHERE'' = occurrences q ''WHERE'' + Suc (occurrences s ''WHERE'')"
  "occurrences (q @ '' AND '' @ s) ''WHERE'' = occurrences q ''WHERE'' + occurrences s ''WHERE''"
  "occurrences (q @ '' OR '' @ s) ''WHERE'' = occurrences q ''WHERE'' + occurrences s ''WHERE''"
  using occurrences_append [of "CHR '' ''" "''WHERE''" q "''WHERE '' @ s"]
    occurrences_append [of "CHR '' ''" "''WHERE''" q "''AND '' @ s"]
    occurrences_append [of "CHR '' ''" "''WHERE''" q "''OR '' @ s"]
    occurrences_WHERE_kw [of s]
  by simp_all

lemma occurrences_connective:
  "occurrences (q @ connective w @ s) ''WHERE'' = occurrences q ''WHERE'' + occurrences s ''WHERE''"
  by (cases w) (simp_all only: connective.simps occurrences_after)


lemma where_text:
  "query (select_where c b) =
     (if str_includes (query b) ''WHERE'' then query b @ '' AND '' @ sql c
      else query b @ '' WHERE '' @ sql c)"
  "query (select_orWhere c b) =
     (if str_includes (query b) ''WHERE'' then query b @ '' OR '' @ sql c
      else query b @ '' WHERE '' @ sql c)"
  "query (update_where c u) =
     (if str_includes (query u) ''WHERE'' then query u @ '' AND '' @ sql c
      else query u @ '' WHERE '' @ sql c)"
  "query (update_orWhere c u) =
     (if str_includes (query u) ''WHERE'' then query u @ '' OR '' @ sql c
      else query u @ '' WHERE '' @ sql c)"
  "query (delete_where c b) =
     (if str_includes (query b) ''WHERE'' then query b @ '' AND '' @ sql c
      else query b @ '' WHERE '' @ sql c)"
  "query (delete_orWhere c b) =
     (if str_includes (query b) ''WHERE'' then query b @ '' OR '' @ sql c
      else query b @ '' WHERE '' @ sql c)"
  by (simp_all add: select_where_def select_orWhere_def update_where_def update_orWhere_def
      delete_where_def delete_orWhere_def Let_def)

lemma where_call_text:
  "query (select_where_call b w) =
     query b @ (if str_includes (query b) ''WHERE'' then connective w else '' WHERE '')
       @ sql (condition_of w)"
  "query (update_where_call u w) =
     query u @ (if str_includes (query u) ''WHERE'' then connective w else '' WHERE '')
       @ sql (condition_of w)"
  "query (delete_where_call b w) =
     query b @ (if str_includes (query b) ''WHERE'' then connective w else '' WHERE '')
       @ sql (condition_of w)"
  by (cases w; simp add: where_text)+

text \<open>The chaining property, for any step function that appends this text.\<close>

lemma chain_subsequent:
  fixes step :: "'b \<Rightarrow> where_call \<Rightarrow> 'b" and qtext :: "'b \<Rightarrow> string"
  assumes step: "\<And>b w. qtext (step b w) =
      qtext b @ (if str_includes (qtext b) ''WHERE'' then connective w else '' WHERE '')
        @ sql (condition_of w)"
    and "str_includes (qtext b) ''WHERE''"
  shows "qtext (foldl step b ws) = qtext b @ concat (map (\<lambda>w. connective w @ sql (condition_of w)) ws)"
  using assms(2)
proof (induction ws arbitrary: b)
  case Nil
  then show ?case by simp
next
  case (Cons w ws)
  have t: "qtext (step b w) = qtext b @ connective w @ sql (condition_of w)"
    using Cons.prems by (simp add: step)
  have "0 < occurrences (qtext (step b w)) ''WHERE''"
    using Cons.prems by (simp add: t occurrences_connective str_includes_occurrences)
  then have "str_includes (qtext (step b w)) ''WHERE''"
    by (simp add: str_includes_occurrences)
  from Cons.IH [OF this] show ?case by (simp add: t)
qed

lemma occurrences_rest:
  "occurrences (q @ concat (map (\<lambda>w. connective w @ sql (condition_of w)) ws)) ''WHERE''
     = occurrences q ''WHERE'' + sum_list (map (\<lambda>w. occurrences (sql (condition_of w)) ''WHERE'') ws)"
proof (induction ws arbitrary: q)
  case Nil
  then show ?case by simp
next
  case (Cons w ws)
  have "occurrences ((q @ connective w @ sql (condition_of w))
          @ concat (map (\<lambda>w. connective w @ sql (condition_of w)) ws)) ''WHERE''
        = occurrences (q @ connective w @ sql (condition_of w)) ''WHERE''
          + sum_list (map (\<lambda>w. occurrences (sql (condition_of w)) ''WHERE'') ws)"
    by (rule Cons.IH)
  also have "occurrences (q @ connective w @ sql (condition_of w)) ''WHERE''
      = occurrences q ''WHERE'' + occurrences (sql (condition_of w)) ''WHERE''"
    by (rule occurrences_connective)
  finally show ?case by simp
qed

lemma sum_occurrences_none:
  "\<forall>w\<in>set ws. \<not> str_includes (sql (condition_of w)) ''WHERE''
   \<Longrightarrow> sum_list (map (\<lambda>w. occurrences (sql (condition_of w)) ''WHERE'') ws) = 0"
  by (induction ws) (simp_all add: str_includes_occurrences)

lemma chain_from_fresh:
  fixes step :: "'b \<Rightarrow> where_call \<Rightarrow> 'b" and qtext :: "'b \<Rightarrow> string"
  assumes step: "\<And>b w. qtext (step b w) =
      qtext b @ (if str_includes (qtext b) ''WHERE'' then connective w else '' WHERE '')
        @ sql (condition_of w)"
    and fresh: "\<not> str_includes (qtext b) ''WHERE''"
  shows "qtext (foldl step b (w0 # ws)) =
           qtext b @ '' WHERE '' @ sql (condition_of w0)
             @ concat (map (\<lambda>w. connective w @ sql (condition_of w)) ws)"
    and "occurrences (qtext (foldl step b (w0 # ws))) ''WHERE''
           = 1 + sum_list (map (\<lambda>w. occurrences (sql (condition_of w)) ''WHERE'') (w0 # ws))"
    and "\<forall>w\<in>set (w0 # ws). \<not> str_includes (sql (condition_of w)) ''WHERE''
           \<Longrightarrow> occurrences (qtext (foldl step b (w0 # ws))) ''WHERE'' = 1"
proof -
  have t: "qtext (step b w0) = qtext b @ '' WHERE '' @ sql (condition_of w0)"
    using fresh by (simp add: step)
  have "occurrences (qtext (step b w0)) ''WHERE''
      = occurrences (qtext b) ''WHERE'' + Suc (occurrences (sql (condition_of w0)) ''WHERE'')"
    by (simp only: t occurrences_after)
  with fresh have one: "occurrences (qtext (step b w0)) ''WHERE''
      = Suc (occurrences (sql (condition_of w0)) ''WHERE'')"
    by (simp add: str_includes_occurrences)
  then have inc: "str_includes (qtext (step b w0)) ''WHERE''"
    by (simp add: str_includes_occurrences)
  have whole: "qtext (foldl step b (w0 # ws)) =
      (qtext b @ '' WHERE '' @ sql (condition_of w0))
        @ concat (map (\<lambda>w. connective w @ sql (condition_of w)) ws)"
    using chain_subsequent [of qtext step, OF step inc, of ws] by (simp add: t)
  then show "qtext (foldl step b (w0 # ws)) =
           qtext b @ '' WHERE '' @ sql (condition_of w0)
             @ concat (map (\<lambda>w. connective w @ sql (condition_of w)) ws)"
    by simp
  have "occurrences (qtext (foldl step b (w0 # ws))) ''WHERE''
      = occurrences (qtext b @ '' WHERE '' @ sql (condition_of w0)) ''WHERE''
        + sum_list (map (\<lambda>w. occurrences (sql (condition_of w)) ''WHERE'') ws)"
    unfolding whole by (rule occurrences_rest)
  also have "occurrences (qtext b @ '' WHERE '' @ sql (condition_of w0)) ''WHERE''
      = Suc (occurrences (sql (condition_of w0)) ''WHERE'')"
    using one by (simp only: t)
  finally show count: "occurrences (qtext (foldl step b (w0 # ws))) ''WHERE''
           = 1 + sum_list (map (\<lambda>w. occurrences (sql (condition_of w)) ''WHERE'') (w0 # ws))"
    by simp
  show "occurrences (qtext (foldl step b (w0 # ws))) ''WHERE'' = 1"
    if "\<forall>w\<in>set (w0 # ws). \<not> str_includes (sql (condition_of w)) ''WHERE''"
    using count sum_occurrences_none [OF that] by simp
qed

text \<open>
  Claim C2, as the code has it. The builders look for the letters \<open>WHERE\<close> in the
  accumulated text. On a fresh Select, Update or Delete statement whose text does not
  contain them, the first \<open>where\<close> or \<open>orWhere\<close> call of a chain appends
  \<open> WHERE \<close> and its condition, and every later call appends \<open> AND \<close> (for
  \<open>where\<close>) or \<open> OR \<close> (for \<open>orWhere\<close>) and its condition. The calls write
  \<open>WHERE\<close> once: the text has one occurrence more than the condition fragments have
  between them, which is exactly one occurrence when no fragment contains the letters.
\<close>

theorem where_chain_single_WHERE:
  "(\<not> str_includes (query b) ''WHERE'' \<longrightarrow>
      query (foldl select_where_call b (w0 # ws)) =
        query b @ '' WHERE '' @ sql (condition_of w0)
          @ concat (map (\<lambda>w. connective w @ sql (condition_of w)) ws)
      \<and> occurrences (query (foldl select_where_call b (w0 # ws))) ''WHERE''
          = 1 + sum_list (map (\<lambda>w. occurrences (sql (condition_of w)) ''WHERE'') (w0 # ws))
      \<and> ((\<forall>w\<in>set (w0 # ws). \<not> str_includes (sql (condition_of w)) ''WHERE'') \<longrightarrow>
            occurrences (query (foldl select_where_call b (w0 # ws))) ''WHERE'' = 1))
   \<and> (\<not> str_includes (query u) ''WHERE'' \<longrightarrow>
      query (foldl update_where_call u (w0 # ws)) =
        query u @ '' WHERE '' @ sql (condition_of w0)
          @ concat (map (\<lambda>w. connective w @ sql (condition_of w)) ws)
      \<and> occurrences (query (foldl update_where_call u (w0 # ws))) ''WHERE''
          = 1 + sum_list (map (\<lambda>w. occurrences (sql (condition_of w)) ''WHERE'') (w0 # ws))
      \<and> ((\<forall>w\<in>set (w0 # ws). \<not> str_includes (sql (condition_of w)) ''WHERE'') \<longrightarrow>
            occurrences (query (foldl update_where_call u (w0 # ws))) ''WHERE'' = 1))
   \<and> (\<not> str_includes (query d) ''WHERE'' \<longrightarrow>
      query (foldl delete_where_call d (w0 # ws)) =
        query d @ '' WHERE '' @ sql (condition_of w0)
          @ concat (map (\<lambda>w. connective w @ sql (condition_of w)) ws)
      \<and> occurrences (query (foldl delete_where_call d (w0 # ws))) ''WHERE''
          = 1 + sum_list (map (\<lambda>w. occurrences (sql (condition_of w)) ''WHERE'') (w0 # ws))
      \<and> ((\<forall>w\<in>set (w0 # ws). \<not> str_includes (sql (condition_of w)) ''WHERE'') \<longrightarrow>
            occurrences (query (foldl delete_where_call d (w0 # ws))) ''WHERE'' = 1))"
  using chain_from_fresh [of query select_where_call b w0 ws, OF where_call_text(1)]
    chain_from_fresh [of query update_where_call u w0 ws, OF where_call_text(2)]
    chain_from_fresh [of query delete_where_call d w0 ws, OF where_call_text(3)]
  by blast

theorem where_chain_single_WHERE_witness:
  \<open>query (foldl select_where_call (select_from ''T'' (db_select [''x'', ''y'']))
       [AndWhere (eq ''WHEREABOUTS'' (Num 3)), OrWhere (eq ''y'' (Num 4)), AndWhere (lt ''x'' (Num 9))])
     = ''SELECT x, y FROM "T" WHERE "WHEREABOUTS" = ? OR "y" = ? AND "x" < ?''
   \<and> occurrences (query (foldl select_where_call (select_from ''T'' (db_select [''x'', ''y'']))
       [AndWhere (eq ''WHEREABOUTS'' (Num 3)), OrWhere (eq ''y'' (Num 4)), AndWhere (lt ''x'' (Num 9))]))
         ''WHERE'' = 2
   \<and> query (foldl update_where_call (update_set [(''a'', Num 1)] (db_update ''T''))
       [AndWhere (eq ''x'' (Num 3)), OrWhere (eq ''y'' (Num 4)), AndWhere (lt ''x'' (Num 9))])
     = ''UPDATE "T" SET "a" = ? WHERE "x" = ? OR "y" = ? AND "x" < ?''
   \<and> occurrences (query (foldl update_where_call (update_set [(''a'', Num 1)] (db_update ''T''))
       [AndWhere (eq ''x'' (Num 3)), OrWhere (eq ''y'' (Num 4)), AndWhere (lt ''x'' (Num 9))])) ''WHERE'' = 1
   \<and> query (foldl delete_where_call (delete_from ''T'' db_delete)
       [AndWhere (eq ''x'' (Num 3)), OrWhere (eq ''y'' (Num 4)), AndWhere (lt ''x'' (Num 9))])
     = ''DELETE FROM "T" WHERE "x" = ? OR "y" = ? AND "x" < ?''
   \<and> occurrences (query (foldl delete_where_call (delete_from ''T'' db_delete)
       [AndWhere (eq ''x'' (Num 3)), OrWhere (eq ''y'' (Num 4)), AndWhere (lt ''x'' (Num 9))])) ''WHERE'' = 1\<close>
proof -
  have conds: "\<forall>w\<in>set (AndWhere (eq ''x'' (Num 3)) # [OrWhere (eq ''y'' (Num 4)), AndWhere (lt ''x'' (Num 9))]).
      \<not> str_includes (sql (condition_of w)) ''WHERE''"
    by (simp add: eq_def lt_def)
  have s: "\<not> str_includes (query (select_from ''T'' (db_select [''x'', ''y'']))) ''WHERE''"
    by (simp add: select_from_def db_select_def)
  have u: "\<not> str_includes (query (update_set [(''a'', Num 1)] (db_update ''T''))) ''WHERE''"
    by (simp add: update_set_def db_update_def keys_def)
  have d: "\<not> str_includes (query (delete_from ''T'' db_delete)) ''WHERE''"
    by (simp add: delete_from_def db_delete_def)
  from where_chain_single_WHERE [of "select_from ''T'' (db_select [''x'', ''y''])"
      "AndWhere (eq ''WHEREABOUTS'' (Num 3))" "[OrWhere (eq ''y'' (Num 4)), AndWhere (lt ''x'' (Num 9))]"
      "update_set [(''a'', Num 1)] (db_update ''T'')" "delete_from ''T'' db_delete"] s
  have a: \<open>query (foldl select_where_call (select_from ''T'' (db_select [''x'', ''y'']))
       [AndWhere (eq ''WHEREABOUTS'' (Num 3)), OrWhere (eq ''y'' (Num 4)), AndWhere (lt ''x'' (Num 9))])
     = ''SELECT x, y FROM "T" WHERE "WHEREABOUTS" = ? OR "y" = ? AND "x" < ?''
   \<and> occurrences (query (foldl select_where_call (select_from ''T'' (db_select [''x'', ''y'']))
       [AndWhere (eq ''WHEREABOUTS'' (Num 3)), OrWhere (eq ''y'' (Num 4)), AndWhere (lt ''x'' (Num 9))]))
         ''WHERE'' = 2\<close>
    by (simp add: select_from_def db_select_def eq_def lt_def)
  from where_chain_single_WHERE [of "select_from ''T'' (db_select [''x'', ''y''])"
      "AndWhere (eq ''x'' (Num 3))" "[OrWhere (eq ''y'' (Num 4)), AndWhere (lt ''x'' (Num 9))]"
      "update_set [(''a'', Num 1)] (db_update ''T'')" "delete_from ''T'' db_delete"] conds u d
  have b: \<open>query (foldl update_where_call (update_set [(''a'', Num 1)] (db_update ''T''))
       [AndWhere (eq ''x'' (Num 3)), OrWhere (eq ''y'' (Num 4)), AndWhere (lt ''x'' (Num 9))])
     = ''UPDATE "T" SET "a" = ? WHERE "x" = ? OR "y" = ? AND "x" < ?''
   \<and> occurrences (query (foldl update_where_call (update_set [(''a'', Num 1)] (db_update ''T''))
       [AndWhere (eq ''x'' (Num 3)), OrWhere (eq ''y'' (Num 4)), AndWhere (lt ''x'' (Num 9))])) ''WHERE'' = 1
   \<and> query (foldl delete_where_call (delete_from ''T'' db_delete)
       [AndWhere (eq ''x'' (Num 3)), OrWhere (eq ''y'' (Num 4)), AndWhere (lt ''x'' (Num 9))])
     = ''DELETE FROM "T" WHERE "x" = ? OR "y" = ? AND "x" < ?''
   \<and> occurrences (query (foldl delete_where_call (delete_from ''T'' db_delete)
       [AndWhere (eq ''x'' (Num 3)), OrWhere (eq ''y'' (Num 4)), AndWhere (lt ''x'' (Num 9))])) ''WHERE'' = 1\<close>
    by (simp add: update_set_def db_update_def keys_def delete_from_def db_delete_def eq_def lt_def)
  from a b show ?thesis by blast
qed

text \<open>
  The claim as it was stated fails on a statement whose text already contains the
  letters: after \<open>select('WHERE_X')\<close> the first \<open>where\<close> call appends \<open> AND \<close>,
  and the text has no \<open>WHERE\<close> clause.
\<close>

theorem where_in_identifier_counterexample:
  \<open>query (select_where (eq ''a'' (Num 1)) (db_select [''WHERE_X'']))
     = ''SELECT WHERE_X AND "a" = ?''
   \<and> \<not> str_includes ''SELECT WHERE_X AND "a" = ?'' '' WHERE ''\<close>
  by (simp add: select_where_def db_select_def eq_def)

section \<open>Executing: the count\<close>

lemma str_includes_iff: "str_includes s t \<longleftrightarrow> (\<exists>ps ss. s = ps @ t @ ss)"
proof (induction s)
  case Nil
  then show ?case by auto
next
  case (Cons c cs)
  show ?case
  proof
    assume "str_includes (c # cs) t"
    then consider "prefix t (c # cs)" | "str_includes cs t" by auto
    then show "\<exists>ps ss. c # cs = ps @ t @ ss"
    proof cases
      case 1
      then obtain ss where "c # cs = t @ ss" by (auto simp: prefix_def)
      then have "c # cs = [] @ t @ ss" by simp
      then show ?thesis by blast
    next
      case 2
      with Cons.IH obtain ps ss where "cs = ps @ t @ ss" by auto
      then have "c # cs = (c # ps) @ t @ ss" by simp
      then show ?thesis by blast
    qed
  next
    assume "\<exists>ps ss. c # cs = ps @ t @ ss"
    then obtain ps ss where eq: "c # cs = ps @ t @ ss" by auto
    show "str_includes (c # cs) t"
    proof (cases ps)
      case Nil
      with eq have "prefix t (c # cs)" by (simp add: prefix_def)
      then show ?thesis by simp
    next
      case (Cons p ps')
      with eq have "cs = ps' @ t @ ss" by simp
      with Cons.IH have "str_includes cs t" by auto
      then show ?thesis by simp
    qed
  qed
qed

lemma str_includes_drop: "str_includes (drop n s) t \<Longrightarrow> str_includes s t"
proof -
  assume "str_includes (drop n s) t"
  then obtain ps ss where "drop n s = ps @ t @ ss" by (auto simp: str_includes_iff)
  then have "s = (take n s @ ps) @ t @ ss" by (metis append_take_drop_id append_assoc)
  then show ?thesis unfolding str_includes_iff by blast
qed

lemma dot_star_FROM_None: "\<not> str_includes s '' FROM'' \<Longrightarrow> dot_star_FROM s = None"
  by (induction s) auto

lemma dot_star_FROM_here:
  "\<not> str_includes rest '' FROM'' \<Longrightarrow> dot_star_FROM ('' FROM'' @ rest) = Some rest"
  by (simp add: dot_star_FROM_None line_terminator_def)

lemma dot_star_FROM_skip:
  "\<forall>c\<in>set cols. \<not> line_terminator c \<Longrightarrow> dot_star_FROM s = Some r
   \<Longrightarrow> dot_star_FROM (cols @ s) = Some r"
  by (induction cols) (auto split: list.splits)

lemma replace_SELECT_FROM_prefix:
  assumes "\<forall>c\<in>set cols. \<not> line_terminator c" and "\<not> str_includes rest '' FROM''"
  shows "replace_SELECT_FROM (''SELECT '' @ cols @ '' FROM'' @ rest)
         = ''SELECT COUNT(*) as count FROM'' @ rest"
  using dot_star_FROM_skip [OF assms(1) dot_star_FROM_here [OF assms(2)]]
  by simp

lemma replace_SELECT_FROM_no_FROM:
  "\<not> str_includes s '' FROM'' \<Longrightarrow> replace_SELECT_FROM s = s"
proof (induction s)
  case Nil
  then show ?case by simp
next
  case (Cons c cs)
  have "\<not> str_includes (drop 7 (c # cs)) '' FROM''"
    using Cons.prems str_includes_drop by blast
  then have "dot_star_FROM (drop 7 (c # cs)) = None" by (rule dot_star_FROM_None)
  moreover have "replace_SELECT_FROM cs = cs" using Cons by simp
  ultimately show ?case by (simp del: drop_Suc_Cons)
qed

lemma replace_SELECT_FROM_no_SELECT:
  "\<not> str_includes s ''SELECT '' \<Longrightarrow> replace_SELECT_FROM s = s"
  by (induction s) auto

text \<open>
  The matcher against the pattern, read as a set of decompositions of the text: a
  match is \<open>SELECT \<close>, then characters of one line, then \<open> FROM\<close>.
\<close>

lemma prefix_takeWhile:
  "prefix p s \<Longrightarrow> \<forall>x\<in>set p. P x \<Longrightarrow> prefix p (takeWhile P s)"
proof (induction p arbitrary: s)
  case Nil
  then show ?case by simp
next
  case (Cons a p)
  then obtain s' where "s = a # s'" "prefix p s'" by (cases s) auto
  with Cons show ?case by simp
qed

lemma dot_star_FROM_None_line:
  "\<not> str_includes (takeWhile (\<lambda>c. \<not> line_terminator c) s) '' FROM'' \<Longrightarrow> dot_star_FROM s = None"
proof (induction s)
  case Nil
  then show ?case by simp
next
  case (Cons c cs)
  show ?case
  proof (cases "line_terminator c")
    case True
    then have "\<not> prefix '' FROM'' (c # cs)" by (auto simp: line_terminator_def)
    with True show ?thesis by simp
  next
    case False
    with Cons.prems have
      a: "\<not> prefix '' FROM'' (c # takeWhile (\<lambda>c. \<not> line_terminator c) cs)"
      and b: "\<not> str_includes (takeWhile (\<lambda>c. \<not> line_terminator c) cs) '' FROM''"
      by simp_all
    have "\<not> prefix '' FROM'' (c # cs)"
    proof
      assume "prefix '' FROM'' (c # cs)"
      then have "prefix '' FROM'' (takeWhile (\<lambda>c. \<not> line_terminator c) (c # cs))"
        by (rule prefix_takeWhile) (simp add: line_terminator_def)
      with False a show False by simp
    qed
    with Cons.IH [OF b] False show ?thesis by simp
  qed
qed

lemma dot_star_FROM_Some_D:
  "dot_star_FROM s = Some r \<Longrightarrow> \<exists>m. s = m @ '' FROM'' @ r \<and> (\<forall>c\<in>set m. \<not> line_terminator c)"
proof (induction s arbitrary: r)
  case Nil
  then show ?case by simp
next
  case (Cons c cs)
  show ?case
  proof (cases "\<not> line_terminator c \<and> dot_star_FROM cs \<noteq> None")
    case True
    with Cons.prems have "dot_star_FROM cs = Some r" by auto
    from Cons.IH [OF this] obtain m where "cs = m @ '' FROM'' @ r" "\<forall>c\<in>set m. \<not> line_terminator c"
      by blast
    with True have "c # cs = (c # m) @ '' FROM'' @ r \<and> (\<forall>x\<in>set (c # m). \<not> line_terminator x)"
      by simp
    then show ?thesis by blast
  next
    case False
    with Cons.prems have p: "prefix '' FROM'' (c # cs)" and r: "r = drop 5 (c # cs)"
      by (auto split: if_splits)
    from p obtain z where "c # cs = '' FROM'' @ z" by (auto simp: prefix_def)
    with r have "c # cs = [] @ '' FROM'' @ r" by simp
    then show ?thesis by (metis empty_iff list.set(1))
  qed
qed

lemma dot_star_FROM_greedy:
  assumes "\<forall>c\<in>set m. \<not> line_terminator c"
    and "\<not> str_includes (takeWhile (\<lambda>c. \<not> line_terminator c) r) '' FROM''"
  shows "dot_star_FROM (m @ '' FROM'' @ r) = Some r"
proof -
  have "dot_star_FROM ('' FROM'' @ r) = Some r"
    by (simp add: dot_star_FROM_None_line [OF assms(2)] line_terminator_def)
  with assms(1) show ?thesis by (rule dot_star_FROM_skip)
qed

lemma replace_SELECT_FROM_step:
  assumes "\<not> (prefix ''SELECT '' (a # x) \<and> dot_star_FROM (drop 7 (a # x)) \<noteq> None)"
  shows "replace_SELECT_FROM (a # x) = a # replace_SELECT_FROM x"
proof (cases "prefix ''SELECT '' (a # x)")
  case True
  with assms have "dot_star_FROM (drop 7 (a # x)) = None" by blast
  with True show ?thesis
    by (simp only: replace_SELECT_FROM.simps if_True option.case)
next
  case False
  then show ?thesis
    by (simp only: replace_SELECT_FROM.simps if_False)
qed

lemma replace_SELECT_FROM_skip:
  assumes "\<forall>p t. pre = p @ t \<and> t \<noteq> [] \<longrightarrow>
             \<not> (prefix ''SELECT '' (t @ s) \<and> dot_star_FROM (drop 7 (t @ s)) \<noteq> None)"
  shows "replace_SELECT_FROM (pre @ s) = pre @ replace_SELECT_FROM s"
  using assms
proof (induction pre)
  case Nil
  then show ?case by simp
next
  case (Cons a pre)
  have "\<not> (prefix ''SELECT '' ((a # pre) @ s) \<and> dot_star_FROM (drop 7 ((a # pre) @ s)) \<noteq> None)"
    using Cons.prems by (metis append_Nil list.distinct(1))
  then have here: "replace_SELECT_FROM ((a # pre) @ s) = a # replace_SELECT_FROM (pre @ s)"
    unfolding append_Cons by (rule replace_SELECT_FROM_step)
  have "\<forall>p t. pre = p @ t \<and> t \<noteq> [] \<longrightarrow>
             \<not> (prefix ''SELECT '' (t @ s) \<and> dot_star_FROM (drop 7 (t @ s)) \<noteq> None)"
  proof (intro allI impI)
    fix p t assume "pre = p @ t \<and> t \<noteq> []"
    then have "a # pre = (a # p) @ t \<and> t \<noteq> []" by simp
    with Cons.prems show "\<not> (prefix ''SELECT '' (t @ s) \<and> dot_star_FROM (drop 7 (t @ s)) \<noteq> None)"
      by blast
  qed
  from Cons.IH [OF this] have "replace_SELECT_FROM (pre @ s) = pre @ replace_SELECT_FROM s" .
  with here show ?case by simp
qed

lemma match_decomposes:
  assumes "prefix ''SELECT '' x" and "dot_star_FROM (drop 7 x) \<noteq> None"
  shows "\<exists>m r. x = ''SELECT '' @ m @ '' FROM'' @ r \<and> (\<forall>c\<in>set m. \<not> line_terminator c)"
proof -
  from assms(1) obtain z where z: "x = ''SELECT '' @ z" by (auto simp: prefix_def)
  then have "drop 7 x = z" by simp
  with assms(2) obtain r where "dot_star_FROM z = Some r" by auto
  from dot_star_FROM_Some_D [OF this] z show ?thesis by blast
qed

lemma replace_SELECT_FROM_leftmost:
  assumes mid: "\<forall>c\<in>set mid. \<not> line_terminator c"
    and greedy: "\<not> str_includes (takeWhile (\<lambda>c. \<not> line_terminator c) rest) '' FROM''"
    and leftmost: "\<forall>p t m r. pre = p @ t \<and> t \<noteq> []
         \<and> t @ ''SELECT '' @ mid @ '' FROM'' @ rest = ''SELECT '' @ m @ '' FROM'' @ r
         \<longrightarrow> (\<exists>c\<in>set m. line_terminator c)"
  shows "replace_SELECT_FROM (pre @ ''SELECT '' @ mid @ '' FROM'' @ rest)
           = pre @ ''SELECT COUNT(*) as count FROM'' @ rest"
proof -
  let ?s = "''SELECT '' @ mid @ '' FROM'' @ rest"
  have "\<forall>p t. pre = p @ t \<and> t \<noteq> [] \<longrightarrow>
             \<not> (prefix ''SELECT '' (t @ ?s) \<and> dot_star_FROM (drop 7 (t @ ?s)) \<noteq> None)"
  proof (intro allI impI notI)
    fix p t
    assume pt: "pre = p @ t \<and> t \<noteq> []"
      and "prefix ''SELECT '' (t @ ?s) \<and> dot_star_FROM (drop 7 (t @ ?s)) \<noteq> None"
    then obtain m r where "t @ ?s = ''SELECT '' @ m @ '' FROM'' @ r" "\<forall>c\<in>set m. \<not> line_terminator c"
      using match_decomposes by blast
    with leftmost pt show False by blast
  qed
  then have "replace_SELECT_FROM (pre @ ?s) = pre @ replace_SELECT_FROM ?s"
    by (rule replace_SELECT_FROM_skip)
  moreover have "replace_SELECT_FROM ?s = ''SELECT COUNT(*) as count FROM'' @ rest"
    using dot_star_FROM_greedy [OF mid greedy] by simp
  ultimately show ?thesis by simp
qed

lemma replace_SELECT_FROM_no_match:
  assumes "\<forall>p m r. s = p @ ''SELECT '' @ m @ '' FROM'' @ r \<longrightarrow> (\<exists>c\<in>set m. line_terminator c)"
  shows "replace_SELECT_FROM s = s"
proof -
  have "\<forall>p t. s = p @ t \<and> t \<noteq> [] \<longrightarrow>
          \<not> (prefix ''SELECT '' (t @ []) \<and> dot_star_FROM (drop 7 (t @ [])) \<noteq> None)"
  proof (intro allI impI notI)
    fix p t
    assume pt: "s = p @ t \<and> t \<noteq> []"
      and "prefix ''SELECT '' (t @ []) \<and> dot_star_FROM (drop 7 (t @ [])) \<noteq> None"
    then obtain m r where "t = ''SELECT '' @ m @ '' FROM'' @ r" "\<forall>c\<in>set m. \<not> line_terminator c"
      using match_decomposes [of t] by auto
    with assms pt show False by blast
  qed
  from replace_SELECT_FROM_skip [OF this] show ?thesis by simp
qed

lemma select_count_text:
  "replace_SELECT_FROM (query b) = q \<Longrightarrow>
   select_count db b =
     (case db q (params b) of
        Inl e \<Rightarrow> Inl e
      | Inr result \<Rightarrow> (case result of [] \<Rightarrow> Inl TypeError | r # _ \<Rightarrow> Inr (get r ''count'')))"
  by (simp add: select_count_def)

lemma dot_star_FROM_matches:
  assumes "\<forall>c\<in>set m. \<not> line_terminator c"
  shows "dot_star_FROM (m @ '' FROM'' @ r) \<noteq> None"
  using assms
proof (induction m)
  case Nil
  show ?case by (simp split: option.splits)
next
  case (Cons a m)
  then show ?case by (auto split: option.splits)
qed

lemma leftmost_by_suffixes:
  assumes "\<forall>t\<in>set (suffixes pre). t \<noteq> [] \<longrightarrow>
             \<not> (prefix ''SELECT '' (t @ s) \<and> dot_star_FROM (drop 7 (t @ s)) \<noteq> None)"
  shows "\<forall>p t m r. pre = p @ t \<and> t \<noteq> [] \<and> t @ s = ''SELECT '' @ m @ '' FROM'' @ r
           \<longrightarrow> (\<exists>c\<in>set m. line_terminator c)"
proof (intro allI impI)
  fix p t m r
  assume a: "pre = p @ t \<and> t \<noteq> [] \<and> t @ s = ''SELECT '' @ m @ '' FROM'' @ r"
  then have "t \<in> set (suffixes pre)" by (simp add: in_set_suffixes suffix_def)
  with assms a have n: "\<not> (prefix ''SELECT '' (t @ s) \<and> dot_star_FROM (drop 7 (t @ s)) \<noteq> None)"
    by blast
  show "\<exists>c\<in>set m. line_terminator c"
  proof (rule ccontr)
    assume "\<not> (\<exists>c\<in>set m. line_terminator c)"
    then have "dot_star_FROM (m @ '' FROM'' @ r) \<noteq> None"
      using dot_star_FROM_matches by blast
    moreover from a have "drop 7 (t @ s) = m @ '' FROM'' @ r" and "prefix ''SELECT '' (t @ s)"
      by simp_all
    ultimately show False using n by simp
  qed
qed

lemma no_match_without_FROM:
  assumes "\<not> str_includes s '' FROM''"
  shows "\<forall>p m r. s = p @ ''SELECT '' @ m @ '' FROM'' @ r \<longrightarrow> (\<exists>c\<in>set m. line_terminator c)"
proof (intro allI impI)
  fix p m r assume "s = p @ ''SELECT '' @ m @ '' FROM'' @ r"
  then have "s = (p @ ''SELECT '' @ m) @ '' FROM'' @ r" by simp
  then have "str_includes s '' FROM''" unfolding str_includes_iff by blast
  with assms show "\<exists>c\<in>set m. line_terminator c" by simp
qed

text \<open>
  Claim C3, as the code has it. \<open>count()\<close> replaces the leftmost match of
  \<open>SELECT .* FROM\<close> by \<open>SELECT COUNT(*) as count FROM\<close>, executes the text with the
  bound parameters unchanged, and answers the \<open>count\<close> field of the first row of the
  result. A match is \<open>SELECT \<close>, characters of one line, and \<open> FROM\<close>; the one
  replaced starts at the first position where the pattern matches and ends at the
  last \<open> FROM\<close> of that line. So for a text \<open>pre SELECT mid FROM rest\<close>, where
  \<open>mid\<close> has no line break, no \<open> FROM\<close> follows on the line of \<open>rest\<close> and the
  pattern matches at no position inside \<open>pre\<close>, the statement executed is
  \<open>pre SELECT COUNT(*) as count FROM rest\<close>. In particular, for a text
  \<open>SELECT cols FROM rest\<close> whose columns have no line break and whose rest has no
  further \<open> FROM\<close>, every later clause is kept. A text that the pattern matches
  nowhere is executed as it is. The only failures are the executor's error and the
  \<open>TypeError\<close> of an empty result.
\<close>

theorem count_statement:
  assumes "query b = pre @ ''SELECT '' @ mid @ '' FROM'' @ rest"
    and "\<forall>c\<in>set mid. \<not> line_terminator c"
    and "\<not> str_includes (takeWhile (\<lambda>c. \<not> line_terminator c) rest) '' FROM''"
    and "\<forall>p t m r. pre = p @ t \<and> t \<noteq> []
           \<and> t @ ''SELECT '' @ mid @ '' FROM'' @ rest = ''SELECT '' @ m @ '' FROM'' @ r
           \<longrightarrow> (\<exists>c\<in>set m. line_terminator c)"
  shows "select_count db b =
           (case db (pre @ ''SELECT COUNT(*) as count FROM'' @ rest) (params b) of
              Inl e \<Rightarrow> Inl e
            | Inr result \<Rightarrow>
                (case result of [] \<Rightarrow> Inl TypeError | r # _ \<Rightarrow> Inr (get r ''count'')))
       \<and> ((\<forall>p m r. query b' = p @ ''SELECT '' @ m @ '' FROM'' @ r \<longrightarrow> (\<exists>c\<in>set m. line_terminator c)) \<longrightarrow>
            select_count db b' =
              (case db (query b') (params b') of
                 Inl e \<Rightarrow> Inl e
               | Inr result \<Rightarrow>
                   (case result of [] \<Rightarrow> Inl TypeError | r # _ \<Rightarrow> Inr (get r ''count''))))
       \<and> (query c = ''SELECT '' @ cols @ '' FROM'' @ rest' \<and> (\<forall>x\<in>set cols. \<not> line_terminator x)
            \<and> \<not> str_includes rest' '' FROM'' \<longrightarrow>
            select_count db c =
              (case db (''SELECT COUNT(*) as count FROM'' @ rest') (params c) of
                 Inl e \<Rightarrow> Inl e
               | Inr result \<Rightarrow>
                   (case result of [] \<Rightarrow> Inl TypeError | r # _ \<Rightarrow> Inr (get r ''count''))))"
proof (intro conjI impI)
  have "replace_SELECT_FROM (query b) = pre @ ''SELECT COUNT(*) as count FROM'' @ rest"
    unfolding assms(1) using assms(2,3,4) by (rule replace_SELECT_FROM_leftmost)
  then show "select_count db b =
           (case db (pre @ ''SELECT COUNT(*) as count FROM'' @ rest) (params b) of
              Inl e \<Rightarrow> Inl e
            | Inr result \<Rightarrow>
                (case result of [] \<Rightarrow> Inl TypeError | r # _ \<Rightarrow> Inr (get r ''count'')))"
    by (rule select_count_text)
next
  assume "\<forall>p m r. query b' = p @ ''SELECT '' @ m @ '' FROM'' @ r \<longrightarrow> (\<exists>c\<in>set m. line_terminator c)"
  then have "replace_SELECT_FROM (query b') = query b'"
    by (rule replace_SELECT_FROM_no_match)
  then show "select_count db b' =
              (case db (query b') (params b') of
                 Inl e \<Rightarrow> Inl e
               | Inr result \<Rightarrow>
                   (case result of [] \<Rightarrow> Inl TypeError | r # _ \<Rightarrow> Inr (get r ''count'')))"
    by (rule select_count_text)
next
  assume a: "query c = ''SELECT '' @ cols @ '' FROM'' @ rest' \<and> (\<forall>x\<in>set cols. \<not> line_terminator x)
            \<and> \<not> str_includes rest' '' FROM''"
  then have "replace_SELECT_FROM (''SELECT '' @ cols @ '' FROM'' @ rest')
         = ''SELECT COUNT(*) as count FROM'' @ rest'"
    by (intro replace_SELECT_FROM_prefix) blast+
  with a have "replace_SELECT_FROM (query c) = ''SELECT COUNT(*) as count FROM'' @ rest'"
    by simp
  then show "select_count db c =
              (case db (''SELECT COUNT(*) as count FROM'' @ rest') (params c) of
                 Inl e \<Rightarrow> Inl e
               | Inr result \<Rightarrow>
                   (case result of [] \<Rightarrow> Inl TypeError | r # _ \<Rightarrow> Inr (get r ''count'')))"
    by (rule select_count_text)
qed

theorem count_statement_witness:
  \<open>query (db_select [''a'' @ [CHR 0x0A] @ ''(SELECT x FROM u)''])
     = (''SELECT a'' @ [CHR 0x0A] @ ''('') @ ''SELECT '' @ ''x'' @ '' FROM'' @ '' u)''
   \<and> select_count
        (\<lambda>q ps. if q = (''SELECT a'' @ [CHR 0x0A] @ ''('') @ ''SELECT COUNT(*) as count FROM'' @ '' u)''
                 then Inr [[(''count'', Num 2)]] else Inl (Error ''Query failed''))
        (db_select [''a'' @ [CHR 0x0A] @ ''(SELECT x FROM u)''])
     = Inr (Num 2)
   \<and> select_count (canned [[(''count'', Num 5)]]) (db_select [''a'']) = Inr (Num 5)
   \<and> select_count (\<lambda>q ps. if q = ''SELECT COUNT(*) as count FROM "T" WHERE "y" = ?'' \<and> ps = [Num 4]
                             then Inr [[(''count'', Num 2)]] else Inl (Error ''Query failed''))
       (select_where (eq ''y'' (Num 4)) (select_from ''T'' (db_select [''x'', ''y''])))
     = Inr (Num 2)\<close>
proof -
  let ?b = "db_select [''a'' @ [CHR 0x0A] @ ''(SELECT x FROM u)'']"
  let ?c = "select_where (eq ''y'' (Num 4)) (select_from ''T'' (db_select [''x'', ''y'']))"
  have q: "query ?b = (''SELECT a'' @ [CHR 0x0A] @ ''('') @ ''SELECT '' @ ''x'' @ '' FROM'' @ '' u)''"
    by (simp add: db_select_def)
  have m: "\<forall>c\<in>set ''x''. \<not> line_terminator c"
    by (simp add: line_terminator_def)
  have g: "\<not> str_includes (takeWhile (\<lambda>c. \<not> line_terminator c) '' u)'') '' FROM''"
    by (simp add: line_terminator_def)
  have "\<forall>t\<in>set (suffixes (''SELECT a'' @ [CHR 0x0A] @ ''('')). t \<noteq> [] \<longrightarrow>
          \<not> (prefix ''SELECT '' (t @ ''SELECT '' @ ''x'' @ '' FROM'' @ '' u)'')
             \<and> dot_star_FROM (drop 7 (t @ ''SELECT '' @ ''x'' @ '' FROM'' @ '' u)'')) \<noteq> None)"
    by (simp add: line_terminator_def)
  then have l: "\<forall>p t m r. ''SELECT a'' @ [CHR 0x0A] @ ''('' = p @ t \<and> t \<noteq> []
           \<and> t @ ''SELECT '' @ ''x'' @ '' FROM'' @ '' u)'' = ''SELECT '' @ m @ '' FROM'' @ r
           \<longrightarrow> (\<exists>c\<in>set m. line_terminator c)"
    by (rule leftmost_by_suffixes)
  have n: "\<forall>p m r. query (db_select [''a'']) = p @ ''SELECT '' @ m @ '' FROM'' @ r
             \<longrightarrow> (\<exists>c\<in>set m. line_terminator c)"
    by (rule no_match_without_FROM) (simp add: db_select_def)
  have c: \<open>query ?c = ''SELECT '' @ ''x, y'' @ '' FROM'' @ '' "T" WHERE "y" = ?''
      \<and> (\<forall>x\<in>set ''x, y''. \<not> line_terminator x)
      \<and> \<not> str_includes '' "T" WHERE "y" = ?'' '' FROM''\<close>
    by (simp add: select_where_def select_from_def db_select_def eq_def line_terminator_def)
  have p: "params ?c = [Num 4]"
    by (simp add: select_where_def select_from_def db_select_def eq_def spread_def)
  note t = count_statement [OF q m g l, of _ "db_select [''a'']" ?c "''x, y''" \<open>'' "T" WHERE "y" = ?''\<close>]
  from t [of "\<lambda>q ps. if q = (''SELECT a'' @ [CHR 0x0A] @ ''('') @ ''SELECT COUNT(*) as count FROM'' @ '' u)''
                 then Inr [[(''count'', Num 2)]] else Inl (Error ''Query failed'')"]
  have 1: "select_count
        (\<lambda>q ps. if q = (''SELECT a'' @ [CHR 0x0A] @ ''('') @ ''SELECT COUNT(*) as count FROM'' @ '' u)''
                 then Inr [[(''count'', Num 2)]] else Inl (Error ''Query failed''))
        ?b = Inr (Num 2)"
    by (simp add: get_def)
  from t [of "canned [[(''count'', Num 5)]]"] n
  have 2: "select_count (canned [[(''count'', Num 5)]]) (db_select [''a'']) = Inr (Num 5)"
    by (simp add: canned_def db_select_def get_def)
  from t [of \<open>\<lambda>q ps. if q = ''SELECT COUNT(*) as count FROM "T" WHERE "y" = ?'' \<and> ps = [Num 4]
                             then Inr [[(''count'', Num 2)]] else Inl (Error ''Query failed'')\<close>] c p
  have 3: \<open>select_count (\<lambda>q ps. if q = ''SELECT COUNT(*) as count FROM "T" WHERE "y" = ?'' \<and> ps = [Num 4]
                             then Inr [[(''count'', Num 2)]] else Inl (Error ''Query failed''))
       ?c = Inr (Num 2)\<close>
    by (simp add: get_def)
  from q 1 2 3 show ?thesis by simp
qed

text \<open>
  The claim as it was stated fails twice. A text without \<open> FROM\<close> does not make
  \<open>count()\<close> fail: the text is executed as it is. And the match runs to the last
  \<open> FROM\<close> of the line, so a later clause that contains one is cut off.
\<close>

theorem count_unmatched_counterexample:
  \<open>select_count (canned [[(''count'', Num 5)]]) (db_select [''a'']) = Inr (Num 5)
   \<and> replace_SELECT_FROM (query (db_select [''a''])) = ''SELECT a''
   \<and> replace_SELECT_FROM (query (select_where (eq '' FROM'' (Num 1)) (select_from ''T'' (db_select []))))
       = ''SELECT COUNT(*) as count FROM" = ?''\<close>
  by (simp add: select_count_def canned_def db_select_def select_from_def select_where_def
      eq_def get_def line_terminator_def spread_def)


section \<open>Schema normalizer: datatypes and constraints\<close>

lemma mapSQLiteType_rule:
  "mapSQLiteType t =
     (if str_includes (toUpperCase t) ''INT'' \<or> toUpperCase t = ''REAL'' then ''number'' else ''string'')"
  by (simp add: mapSQLiteType_def Let_def)

lemma column_schema_rule:
  assumes "column_schema fks col = Inr c"
  shows "\<exists>t. get col ''type'' = Str t
     \<and> column_datatype c =
         (if str_includes (toUpperCase t) ''INT'' \<or> toUpperCase t = ''REAL'' then ''number'' else ''string'')
     \<and> column_constraint c =
         (if truthy (get col ''pk'') then ''primary''
          else if truthy (get col ''notnull'') then ''unique'' else ''none'')"
proof (cases "get col ''type''")
  case (Str t)
  with assms have "c = \<lparr>column_name = get col ''name'',
               column_datatype = mapSQLiteType t,
               column_constraint =
                 (if truthy (get col ''pk'') then ''primary''
                  else if truthy (get col ''notnull'') then ''unique'' else ''none''),
               isRequired = (get col ''notnull'' = Num 1),
               foreignKey = findForeignKey (get col ''name'') fks\<rparr>"
    by (simp add: column_schema_def)
  then show ?thesis using Str by (simp add: mapSQLiteType_rule)
qed (use assms in \<open>simp_all add: column_schema_def\<close>)

lemma map_throwing_all2:
  "map_throwing f xs = Inr ys \<Longrightarrow> list_all2 (\<lambda>x y. f x = Inr y) xs ys"
  by (induction xs arbitrary: ys) (auto split: sum.splits)

lemma schema_tables_rule:
  \<open>schema_tables num db ts = Inr outs \<Longrightarrow>
   list_all2 (\<lambda>t out. table_name out = get t ''name'' \<and>
      (\<exists>cols. db (''PRAGMA table_info("'' @ toString num (get t ''name'') @ ''")'') [] = Inr cols \<and>
         list_all2 (\<lambda>col c. \<exists>fks. column_schema fks col = Inr c) cols (table_columns out)))
     ts outs\<close>
proof (induction ts arbitrary: outs)
  case Nil
  then show ?case by simp
next
  case (Cons t ts)
  from Cons.prems obtain cols fks cs rest where
    a: \<open>db (''PRAGMA table_info("'' @ toString num (get t ''name'') @ ''")'') [] = Inr cols\<close>
    and c: "map_throwing (column_schema fks) cols = Inr cs"
    and d: "schema_tables num db ts = Inr rest"
    and e: "outs = \<lparr>table_name = get t ''name'', table_columns = cs\<rparr> # rest"
    by (auto simp: Let_def split: sum.splits)
  have "list_all2 (\<lambda>col c. \<exists>fks. column_schema fks col = Inr c) cols cs"
    using map_throwing_all2 [OF c] by (rule list_all2_mono) blast
  with a Cons.IH [OF d] e show ?case by simp
qed

lemma pixels_schema:
  "schema (\<lambda>n. []) pixels_db =
     Inr [\<lparr>table_name = Str ''Pixels'',
           table_columns =
             [\<lparr>column_name = Str ''id'', column_datatype = ''number'', column_constraint = ''primary'',
               isRequired = True, foreignKey = None\<rparr>,
              \<lparr>column_name = Str ''x'', column_datatype = ''number'', column_constraint = ''none'',
               isRequired = False, foreignKey = None\<rparr>,
              \<lparr>column_name = Str ''color'', column_datatype = ''string'', column_constraint = ''none'',
               isRequired = False, foreignKey = None\<rparr>]\<rparr>]"
  by code_simp

text \<open>
  Claim C8, as the code has it. The type name is put in upper case first: the datatype
  is \<open>number\<close> exactly when the upper-cased type name contains \<open>INT\<close> or is
  \<open>REAL\<close>, and \<open>string\<close> otherwise. The constraint is \<open>primary\<close> when the column
  is a primary key, whatever its null-ability, else \<open>unique\<close> when it is declared
  NOT NULL, else \<open>none\<close>. This holds of every column of every table in the result of
  \<open>schema()\<close>, column by column against the rows of the catalog, and however the
  language prints a number.
\<close>

theorem schema_normalizes_columns:
  assumes "schema num db = Inr outs"
  shows \<open>mapSQLiteType t =
           (if str_includes (toUpperCase t) ''INT'' \<or> toUpperCase t = ''REAL''
            then ''number'' else ''string'')
     \<and> (\<exists>tables. db tables_query [] = Inr tables \<and>
          list_all2 (\<lambda>t out. table_name out = get t ''name'' \<and>
            (\<exists>cols. db (''PRAGMA table_info("'' @ toString num (get t ''name'') @ ''")'') [] = Inr cols \<and>
               list_all2 (\<lambda>col c. \<exists>ty. get col ''type'' = Str ty
                   \<and> column_datatype c =
                       (if str_includes (toUpperCase ty) ''INT'' \<or> toUpperCase ty = ''REAL''
                        then ''number'' else ''string'')
                   \<and> column_constraint c =
                       (if truthy (get col ''pk'') then ''primary''
                        else if truthy (get col ''notnull'') then ''unique'' else ''none''))
                 cols (table_columns out)))
            tables outs)\<close>
proof -
  from assms obtain tables where
    t: "db tables_query [] = Inr tables" and s: "schema_tables num db tables = Inr outs"
    by (auto simp: schema_def split: sum.splits)
  have \<open>list_all2 (\<lambda>t out. table_name out = get t ''name'' \<and>
            (\<exists>cols. db (''PRAGMA table_info("'' @ toString num (get t ''name'') @ ''")'') [] = Inr cols \<and>
               list_all2 (\<lambda>col c. \<exists>ty. get col ''type'' = Str ty
                   \<and> column_datatype c =
                       (if str_includes (toUpperCase ty) ''INT'' \<or> toUpperCase ty = ''REAL''
                        then ''number'' else ''string'')
                   \<and> column_constraint c =
                       (if truthy (get col ''pk'') then ''primary''
                        else if truthy (get col ''notnull'') then ''unique'' else ''none''))
                 cols (table_columns out)))
            tables outs\<close>
  proof (rule list_all2_mono [OF schema_tables_rule [OF s]])
    fix t out
    assume \<open>table_name out = get t ''name'' \<and>
      (\<exists>cols. db (''PRAGMA table_info("'' @ toString num (get t ''name'') @ ''")'') [] = Inr cols \<and>
         list_all2 (\<lambda>col c. \<exists>fks. column_schema fks col = Inr c) cols (table_columns out))\<close>
    then obtain cols where
      n: "table_name out = get t ''name''"
      and c: \<open>db (''PRAGMA table_info("'' @ toString num (get t ''name'') @ ''")'') [] = Inr cols\<close>
      and l: "list_all2 (\<lambda>col c. \<exists>fks. column_schema fks col = Inr c) cols (table_columns out)"
      by blast
    have "list_all2 (\<lambda>col c. \<exists>ty. get col ''type'' = Str ty
                   \<and> column_datatype c =
                       (if str_includes (toUpperCase ty) ''INT'' \<or> toUpperCase ty = ''REAL''
                        then ''number'' else ''string'')
                   \<and> column_constraint c =
                       (if truthy (get col ''pk'') then ''primary''
                        else if truthy (get col ''notnull'') then ''unique'' else ''none''))
                 cols (table_columns out)"
      using l by (rule list_all2_mono) (use column_schema_rule in blast)
    with n c show \<open>table_name out = get t ''name'' \<and>
            (\<exists>cols. db (''PRAGMA table_info("'' @ toString num (get t ''name'') @ ''")'') [] = Inr cols \<and>
               list_all2 (\<lambda>col c. \<exists>ty. get col ''type'' = Str ty
                   \<and> column_datatype c =
                       (if str_includes (toUpperCase ty) ''INT'' \<or> toUpperCase ty = ''REAL''
                        then ''number'' else ''string'')
                   \<and> column_constraint c =
                       (if truthy (get col ''pk'') then ''primary''
                        else if truthy (get col ''notnull'') then ''unique'' else ''none''))
                 cols (table_columns out))\<close>
      by blast
  qed
  with t mapSQLiteType_rule [of t] show ?thesis by blast
qed

theorem schema_normalizes_columns_witness:
  \<open>schema (\<lambda>n. []) pixels_db =
     Inr [\<lparr>table_name = Str ''Pixels'',
           table_columns =
             [\<lparr>column_name = Str ''id'', column_datatype = ''number'', column_constraint = ''primary'',
               isRequired = True, foreignKey = None\<rparr>,
              \<lparr>column_name = Str ''x'', column_datatype = ''number'', column_constraint = ''none'',
               isRequired = False, foreignKey = None\<rparr>,
              \<lparr>column_name = Str ''color'', column_datatype = ''string'', column_constraint = ''none'',
               isRequired = False, foreignKey = None\<rparr>]\<rparr>]
   \<and> (\<exists>tables. pixels_db tables_query [] = Inr tables \<and>
          list_all2 (\<lambda>t out. table_name out = get t ''name'' \<and>
            (\<exists>cols. pixels_db (''PRAGMA table_info("'' @ toString (\<lambda>n. []) (get t ''name'') @ ''")'') [] = Inr cols \<and>
               list_all2 (\<lambda>col c. \<exists>ty. get col ''type'' = Str ty
                   \<and> column_datatype c =
                       (if str_includes (toUpperCase ty) ''INT'' \<or> toUpperCase ty = ''REAL''
                        then ''number'' else ''string'')
                   \<and> column_constraint c =
                       (if truthy (get col ''pk'') then ''primary''
                        else if truthy (get col ''notnull'') then ''unique'' else ''none''))
                 cols (table_columns out)))
            tables
            [\<lparr>table_name = Str ''Pixels'',
              table_columns =
                [\<lparr>column_name = Str ''id'', column_datatype = ''number'', column_constraint = ''primary'',
                  isRequired = True, foreignKey = None\<rparr>,
                 \<lparr>column_name = Str ''x'', column_datatype = ''number'', column_constraint = ''none'',
                  isRequired = False, foreignKey = None\<rparr>,
                 \<lparr>column_name = Str ''color'', column_datatype = ''string'', column_constraint = ''none'',
                  isRequired = False, foreignKey = None\<rparr>]\<rparr>])\<close>
  using schema_normalizes_columns [OF pixels_schema] pixels_schema by blast

text \<open>
  The claim as it was stated fails on a type name in lower case: \<open>integer\<close> neither
  contains \<open>INT\<close> nor is \<open>REAL\<close>, and its datatype is \<open>number\<close>.
\<close>

theorem mapSQLiteType_lowercase_counterexample:
  "mapSQLiteType ''integer'' = ''number''
   \<and> \<not> str_includes ''integer'' ''INT'' \<and> ''integer'' \<noteq> ''REAL''"
  by code_simp

end
